theory Spec2Isabelle
  imports Main "HOL-Library.Char_ord" "HOL-Library.List_Lexorder"
begin

section \<open>The SecurityScheme model of openapi-schema-pydantic (v3.1.0)\<close>

text \<open>
  The source, \<^verbatim>\<open>v3/v3_1_0/security_scheme.py\<close>, is one declarative class:
  \<^verbatim>\<open>
  class SecurityScheme(BaseModel):
      type: str = ...
      description: Optional[str] = None
      name: Optional[str] = None
      security_scheme_in: Optional[str] = Field(alias="in", default=None)
      scheme: Optional[str] = None
      bearerFormat: Optional[str] = None
      flows: Optional[OAuthFlows] = None
      openIdConnectUrl: Optional[Union[AnyUrl, str]] = None

      class Config(DefaultConfig):
          allow_population_by_field_name = True
  \<close>
  What the class does is what the base class does with these declarations: it looks every
  field up in the input, validates the value against the declared type, collects the errors
  of all fields and builds the object when there are none. The embedding below writes that
  procedure out for the eight declared fields, type by type as they are declared.

  Three things the class refers to are not part of this one file and are parameters of
  the model: the policy of \<^verbatim>\<open>DefaultConfig\<close> for keys that are no field, the parser of
  \<^verbatim>\<open>AnyUrl\<close>, and the construction and export of \<^verbatim>\<open>OAuthFlows\<close>.
\<close>

subsection \<open>Input values and errors\<close>

text \<open>
  An input is a mapping from keys to values of a parsed JSON or YAML document. Numbers are
  the integers; floating point values are outside the model. A mapping is an association
  list read with \<open>map_of\<close>; two lists with the same \<open>map_of\<close> are the same mapping.
\<close>

datatype json =
    JNull
  | JBool bool
  | JInt int
  | JStr string
  | JArr "json list"
  | JObj "(string \<times> json) list"

type_synonym wire = "(string \<times> json) list"

type_synonym loc = "string list"

text \<open>
  The failure of a construction is a list of errors, one or more for each offending key,
  each with the location of the key. \<open>MissingRequiredField\<close> is the library's
  \<^verbatim>\<open>value_error.missing\<close>; \<open>InvalidFieldValue\<close> stands for its type errors, with the reason;
  \<open>ExtraFieldNotPermitted\<close> is \<^verbatim>\<open>value_error.extra\<close>, raised only under \<^verbatim>\<open>Extra.forbid\<close>.
\<close>

datatype reason = NotAString | NoneNotAllowed | NotAUrl | NotAMapping | KeywordNotAString

datatype error =
    MissingRequiredField loc
  | InvalidFieldValue loc reason
  | ExtraFieldNotPermitted loc

fun at_loc :: "string \<Rightarrow> error \<Rightarrow> error" where
  "at_loc k (MissingRequiredField l) = MissingRequiredField (k # l)"
| "at_loc k (InvalidFieldValue l r) = InvalidFieldValue (k # l) r"
| "at_loc k (ExtraFieldNotPermitted l) = ExtraFieldNotPermitted (k # l)"

subsection \<open>The record\<close>

text \<open>
  \<^verbatim>\<open>Union[AnyUrl, str]\<close>: the value is either a validated URL or a plain string.
\<close>

datatype AnyUrl_or_str = Url string | Text string

text \<open>
  The eight fields in the order of their declaration. \<open>'f\<close> is the type of the nested
  \<^verbatim>\<open>OAuthFlows\<close> object. A field that holds \<open>None\<close> is unset.
\<close>

record 'f SecurityScheme =
  type :: string
  description :: "string option"
  name :: "string option"
  security_scheme_in :: "string option"
  scheme :: "string option"
  bearerFormat :: "string option"
  flows :: "'f option"
  openIdConnectUrl :: "AnyUrl_or_str option"

subsection \<open>Configuration\<close>

text \<open>
  \<^verbatim>\<open>Extra\<close> is imported by the source and decides what happens to keys that are no field.
  The record has exactly the eight declared fields, so the policy that stores such keys in
  the object is not modelled; they are ignored or rejected.
\<close>

datatype Extra = ignore | forbid

record config =
  extra :: Extra
  allow_population_by_field_name :: bool

text \<open>
  \<^verbatim>\<open>class Config(DefaultConfig): allow_population_by_field_name = True\<close>.
  \<^verbatim>\<open>DefaultConfig\<close> is defined in the module \<^verbatim>\<open>_config\<close>; it is the argument here.
\<close>

definition Config :: "config \<Rightarrow> config" where
  "Config DefaultConfig = DefaultConfig\<lparr>allow_population_by_field_name := True\<rparr>"

subsection \<open>Validators of the declared types\<close>

text \<open>
  \<^verbatim>\<open>str\<close>: a string is taken as it is, a number or a boolean (an \<^verbatim>\<open>int\<close> in Python) is
  rendered with \<^verbatim>\<open>str()\<close>, anything else is a type error.
\<close>

definition digit_char :: "nat \<Rightarrow> char" where
  "digit_char d = ''0123456789'' ! d"

fun str_nat :: "nat \<Rightarrow> string" where
  "str_nat n = (if n < 10 then [digit_char n] else str_nat (n div 10) @ [digit_char (n mod 10)])"

definition str_int :: "int \<Rightarrow> string" where
  "str_int i = (if i < 0 then CHR ''-'' # str_nat (nat (- i)) else str_nat (nat i))"

fun str_validator :: "json \<Rightarrow> error list + string" where
  "str_validator (JStr s) = Inr s"
| "str_validator (JInt i) = Inr (str_int i)"
| "str_validator (JBool b) = Inr (if b then ''True'' else ''False'')"
| "str_validator _ = Inl [InvalidFieldValue [] NotAString]"

text \<open>
  \<^verbatim>\<open>AnyUrl\<close>: the value is first validated as a string, then parsed. The parser belongs to
  the library; \<open>any_url s\<close> is the text of the URL it builds from \<open>s\<close>, or \<open>None\<close> when it
  rejects \<open>s\<close>.
\<close>

definition AnyUrl_validate :: "(string \<Rightarrow> string option) \<Rightarrow> json \<Rightarrow> error list + string" where
  "AnyUrl_validate any_url v =
     (case str_validator v of
        Inl es \<Rightarrow> Inl es
      | Inr s \<Rightarrow> (case any_url s of
                   None \<Rightarrow> Inl [InvalidFieldValue [] NotAUrl]
                 | Some u \<Rightarrow> Inr u))"

text \<open>
  \<^verbatim>\<open>Union[AnyUrl, str]\<close>: the members are tried in the order written and the first that
  accepts the value gives the result; when none does, the errors of all are reported.
\<close>

definition AnyUrl_or_str_validate ::
    "(string \<Rightarrow> string option) \<Rightarrow> json \<Rightarrow> error list + AnyUrl_or_str" where
  "AnyUrl_or_str_validate any_url v =
     (case AnyUrl_validate any_url v of
        Inr u \<Rightarrow> Inr (Url u)
      | Inl es1 \<Rightarrow> (case str_validator v of
                     Inr s \<Rightarrow> Inr (Text s)
                   | Inl es2 \<Rightarrow> Inl (es1 @ es2)))"

text \<open>
  A field whose type is a model class, here \<^verbatim>\<open>OAuthFlows\<close>: a mapping is passed to the
  constructor of the class as it is; any other value is first converted with \<^verbatim>\<open>dict(value)\<close>,
  and a value that cannot be converted is a type error. \<^verbatim>\<open>dict\<close> iterates over the value and
  takes every item for a pair of a key and a value.

  Iteration: a string gives its characters, each a string of length one; a list its
  elements; a mapping its keys (for a list with a repeated key the order is that of
  \<open>remdups\<close>); a boolean or a number cannot be iterated.
\<close>

fun iter :: "json \<Rightarrow> json list option" where
  "iter (JStr s) = Some (map (\<lambda>c. JStr [c]) s)"
| "iter (JArr xs) = Some xs"
| "iter (JObj kvs) = Some (map JStr (remdups (map fst kvs)))"
| "iter _ = None"

text \<open>An item is a pair when it can be iterated and has exactly two elements.\<close>

definition pair_of :: "json \<Rightarrow> (json \<times> json) option" where
  "pair_of x =
     (case iter x of
        Some [k, v] \<Rightarrow> Some (k, v)
      | _ \<Rightarrow> None)"

text \<open>A key of a dictionary must be hashable: a list or a mapping is not.\<close>

fun hashable :: "json \<Rightarrow> bool" where
  "hashable (JArr xs) = False"
| "hashable (JObj kvs) = False"
| "hashable _ = True"

text \<open>
  \<^verbatim>\<open>dict(value)\<close> for a value that is no mapping; \<open>None\<close> is its \<^verbatim>\<open>TypeError\<close> or
  \<^verbatim>\<open>ValueError\<close>. The empty string and the empty list give the empty dictionary.
\<close>

definition dict_of :: "json \<Rightarrow> (json \<times> json) list option" where
  "dict_of v =
     (case iter v of
        None \<Rightarrow> None
      | Some xs \<Rightarrow>
          (case those (map pair_of xs) of
             None \<Rightarrow> None
           | Some d \<Rightarrow> if list_all (\<lambda>(k, x). hashable k) d then Some d else None))"

text \<open>
  The dictionary is passed to the constructor as keyword arguments, which must be
  strings. A later pair with the same key replaces an earlier one, so the pairs are
  listed last first for \<open>map_of\<close>.
\<close>

fun keyword_arg :: "json \<times> json \<Rightarrow> (string \<times> json) option" where
  "keyword_arg (JStr k, v) = Some (k, v)"
| "keyword_arg _ = None"

definition keyword_args :: "(json \<times> json) list \<Rightarrow> wire option" where
  "keyword_args d = those (map keyword_arg (rev d))"

text \<open>
  The validator of the field. \<open>init\<close> is the constructor of the class, from a mapping;
  its errors are those of the fields of the nested object.
\<close>

definition Model_validate :: "(wire \<Rightarrow> error list + 'f) \<Rightarrow> json \<Rightarrow> error list + 'f" where
  "Model_validate init v =
     (case v of
        JObj kvs \<Rightarrow> init kvs
      | _ \<Rightarrow>
          (case dict_of v of
             None \<Rightarrow> Inl [InvalidFieldValue [] NotAMapping]
           | Some d \<Rightarrow>
               (case keyword_args d of
                  None \<Rightarrow> Inl [InvalidFieldValue [] KeywordNotAString]
                | Some kvs \<Rightarrow> init kvs)))"

subsection \<open>Fields\<close>

text \<open>
  The value of a field is read under its alias; when the key is absent, the field has an
  alias of its own and \<^verbatim>\<open>allow_population_by_field_name\<close> is set, it is read under the
  field's name. The result is the key that was used and the value found.
\<close>

definition field_input :: "config \<Rightarrow> wire \<Rightarrow> string \<Rightarrow> string \<Rightarrow> (string \<times> json) option" where
  "field_input cfg m fname alias =
     (case map_of m alias of
        Some v \<Rightarrow> Some (alias, v)
      | None \<Rightarrow>
          if allow_population_by_field_name cfg \<and> alias \<noteq> fname
          then (case map_of m fname of Some v \<Rightarrow> Some (fname, v) | None \<Rightarrow> None)
          else None)"

text \<open>
  A field declared with \<^verbatim>\<open>= ...\<close> is required: a missing key is an error, and so is
  \<^verbatim>\<open>None\<close>, since the type is not \<^verbatim>\<open>Optional\<close>. Errors carry the alias as location.
\<close>

definition required_field ::
    "(json \<Rightarrow> error list + 'a) \<Rightarrow> string \<Rightarrow> (string \<times> json) option \<Rightarrow> error list + 'a" where
  "required_field validate alias inp =
     (case inp of
        None \<Rightarrow> Inl [MissingRequiredField [alias]]
      | Some (k, JNull) \<Rightarrow> Inl [InvalidFieldValue [alias] NoneNotAllowed]
      | Some (k, v) \<Rightarrow> (case validate v of
                         Inl es \<Rightarrow> Inl (map (at_loc alias) es)
                       | Inr x \<Rightarrow> Inr x))"

text \<open>
  A field declared \<^verbatim>\<open>Optional[T] = None\<close>: a missing key gives the default \<^verbatim>\<open>None\<close>,
  the value \<^verbatim>\<open>None\<close> is accepted as it is, and any other value is validated as a \<^verbatim>\<open>T\<close>.
\<close>

definition optional_field ::
    "(json \<Rightarrow> error list + 'a) \<Rightarrow> string \<Rightarrow> (string \<times> json) option \<Rightarrow> error list + 'a option" where
  "optional_field validate alias inp =
     (case inp of
        None \<Rightarrow> Inr None
      | Some (k, JNull) \<Rightarrow> Inr None
      | Some (k, v) \<Rightarrow> (case validate v of
                         Inl es \<Rightarrow> Inl (map (at_loc alias) es)
                       | Inr x \<Rightarrow> Inr (Some x)))"

text \<open>
  Every field is validated, whether or not an earlier one failed, and the errors of all
  fields are collected in the order of the fields.
\<close>

fun collect :: "error list + ('a \<Rightarrow> 'b) \<Rightarrow> error list + 'a \<Rightarrow> error list + 'b" where
  "collect (Inr f) (Inr x) = Inr (f x)"
| "collect (Inr f) (Inl es) = Inl es"
| "collect (Inl es) (Inr x) = Inl es"
| "collect (Inl es) (Inl es') = Inl (es @ es')"

subsection \<open>Construction\<close>

text \<open>
  The fields as pairs of name and alias; only \<^verbatim>\<open>security_scheme_in\<close> has an alias of its
  own. The keys of the input that no field has used are taken in sorted order; under
  \<^verbatim>\<open>Extra.forbid\<close> each is an error.
\<close>

definition fields :: "(string \<times> string) list" where
  "fields =
     [(''type'', ''type''), (''description'', ''description''), (''name'', ''name''),
      (''security_scheme_in'', ''in''), (''scheme'', ''scheme''),
      (''bearerFormat'', ''bearerFormat''), (''flows'', ''flows''),
      (''openIdConnectUrl'', ''openIdConnectUrl'')]"

definition names_used :: "config \<Rightarrow> wire \<Rightarrow> string list" where
  "names_used cfg m =
     List.map_filter (\<lambda>(fname, alias). map_option fst (field_input cfg m fname alias)) fields"

definition extra_errors :: "config \<Rightarrow> wire \<Rightarrow> error list" where
  "extra_errors cfg m =
     (case extra cfg of
        ignore \<Rightarrow> []
      | forbid \<Rightarrow>
          map (\<lambda>k. ExtraFieldNotPermitted [k])
            (sort (remdups (filter (\<lambda>k. k \<notin> set (names_used cfg m)) (map fst m)))))"

text \<open>
  The fields in the order of the class; then the keys that are no field; the object is
  built only when there is no error at all.
\<close>

definition validate_fields ::
    "config \<Rightarrow> (string \<Rightarrow> string option) \<Rightarrow> (json \<Rightarrow> error list + 'f) \<Rightarrow> wire
      \<Rightarrow> error list + 'f SecurityScheme" where
  "validate_fields cfg any_url OAuthFlows_validate m =
     collect (collect (collect (collect (collect (collect (collect (collect
       (Inr SecurityScheme.make)
       (required_field str_validator ''type'' (field_input cfg m ''type'' ''type'')))
       (optional_field str_validator ''description''
          (field_input cfg m ''description'' ''description'')))
       (optional_field str_validator ''name'' (field_input cfg m ''name'' ''name'')))
       (optional_field str_validator ''in'' (field_input cfg m ''security_scheme_in'' ''in'')))
       (optional_field str_validator ''scheme'' (field_input cfg m ''scheme'' ''scheme'')))
       (optional_field str_validator ''bearerFormat''
          (field_input cfg m ''bearerFormat'' ''bearerFormat'')))
       (optional_field OAuthFlows_validate ''flows'' (field_input cfg m ''flows'' ''flows'')))
       (optional_field (AnyUrl_or_str_validate any_url) ''openIdConnectUrl''
          (field_input cfg m ''openIdConnectUrl'' ''openIdConnectUrl''))"

definition validate_model ::
    "config \<Rightarrow> (string \<Rightarrow> string option) \<Rightarrow> (json \<Rightarrow> error list + 'f) \<Rightarrow> wire
      \<Rightarrow> error list + 'f SecurityScheme" where
  "validate_model DefaultConfig any_url OAuthFlows_validate m =
     (let cfg = Config DefaultConfig in
      case validate_fields cfg any_url OAuthFlows_validate m of
        Inl es \<Rightarrow> Inl (es @ extra_errors cfg m)
      | Inr r \<Rightarrow> (case extra_errors cfg m of [] \<Rightarrow> Inr r | e # es \<Rightarrow> Inl (e # es)))"

subsection \<open>Serialization\<close>

text \<open>
  The class defines no export of its own; it inherits \<^verbatim>\<open>dict\<close>, which lists the fields in
  their order and takes two arguments that matter here: \<^verbatim>\<open>by_alias\<close>, whether a field is
  written under its alias or its name, and \<^verbatim>\<open>exclude_none\<close>, whether a field that holds
  \<^verbatim>\<open>None\<close> is left out. A nested object is exported by its own \<^verbatim>\<open>dict\<close>, a URL as its text.
\<close>

definition item :: "bool \<Rightarrow> string \<Rightarrow> json option \<Rightarrow> wire" where
  "item exclude_none k v =
     (case v of
        None \<Rightarrow> if exclude_none then [] else [(k, JNull)]
      | Some j \<Rightarrow> [(k, j)])"

fun AnyUrl_or_str_text :: "AnyUrl_or_str \<Rightarrow> string" where
  "AnyUrl_or_str_text (Url u) = u"
| "AnyUrl_or_str_text (Text s) = s"

definition dict :: "bool \<Rightarrow> bool \<Rightarrow> ('f \<Rightarrow> wire) \<Rightarrow> 'f SecurityScheme \<Rightarrow> wire" where
  "dict by_alias exclude_none OAuthFlows_dict r =
     item exclude_none ''type'' (Some (JStr (type r))) @
     item exclude_none ''description'' (map_option JStr (description r)) @
     item exclude_none ''name'' (map_option JStr (name r)) @
     item exclude_none (if by_alias then ''in'' else ''security_scheme_in'')
       (map_option JStr (security_scheme_in r)) @
     item exclude_none ''scheme'' (map_option JStr (scheme r)) @
     item exclude_none ''bearerFormat'' (map_option JStr (bearerFormat r)) @
     item exclude_none ''flows'' (map_option (\<lambda>f. JObj (OAuthFlows_dict f)) (flows r)) @
     item exclude_none ''openIdConnectUrl''
       (map_option (\<lambda>u. JStr (AnyUrl_or_str_text u)) (openIdConnectUrl r))"

text \<open>
  Modelled from the spec: the arguments of the export. No call of \<^verbatim>\<open>dict\<close> is part of the
  source file; the serialization contract of the specification ("only the fields that were
  set (absent fields are omitted, not emitted as null), using wire names") is the export
  by alias with unset fields excluded.
\<close>

definition serialize :: "('f \<Rightarrow> wire) \<Rightarrow> 'f SecurityScheme \<Rightarrow> wire" where
  "serialize OAuthFlows_dict r = dict True True OAuthFlows_dict r"

subsection \<open>Collaborators\<close>

text \<open>
  Modelled from the spec: \<^verbatim>\<open>OAuthFlows\<close>, whose module \<^verbatim>\<open>oauth_flows\<close> is not part of the
  source at hand. The specification asks of it that it is "constructible from a mapping,
  serializable back to an equivalent mapping", and says nothing of its fields: the
  object is the mapping it was built from. The class itself validates its fields, so
  every statement below that does not depend on them is made for an arbitrary
  constructor, and this one serves where a statement is applied to a concrete input.
\<close>

datatype OAuthFlows = OAuthFlows wire

definition OAuthFlows_init :: "wire \<Rightarrow> error list + OAuthFlows" where
  "OAuthFlows_init kvs = Inr (OAuthFlows kvs)"

definition OAuthFlows_validate :: "json \<Rightarrow> error list + OAuthFlows" where
  "OAuthFlows_validate = Model_validate OAuthFlows_init"

fun OAuthFlows_dict :: "OAuthFlows \<Rightarrow> wire" where
  "OAuthFlows_dict (OAuthFlows kvs) = kvs"

text \<open>
  A stand-in for the library's URL parser, for the places where a theorem is applied to a
  concrete input: a text is a URL when it starts with a scheme, followed by \<open>://\<close> and a
  rest that is not empty; the text of the URL is the input.
\<close>

definition example_any_url :: "string \<Rightarrow> string option" where
  "example_any_url s =
     (let scheme = takeWhile (\<lambda>c. c \<noteq> CHR '':'') s;
          rest = dropWhile (\<lambda>c. c \<noteq> CHR '':'') s
      in if scheme \<noteq> [] \<and> take 3 rest = ''://'' \<and> drop 3 rest \<noteq> [] then Some s else None)"

text \<open>The library's base configuration: keys that are no field are ignored.\<close>

definition BaseConfig :: config where
  "BaseConfig = \<lparr>extra = ignore, allow_population_by_field_name = False\<rparr>"

subsection \<open>Auxiliary notions\<close>

text \<open>The errors of a result; none when it is a value.\<close>

definition errors_of :: "error list + 'a \<Rightarrow> error list" where
  "errors_of x = (case x of Inl es \<Rightarrow> es | Inr _ \<Rightarrow> [])"

text \<open>A field is set by an input when the input gives it a value other than \<^verbatim>\<open>None\<close>.\<close>

definition is_set :: "config \<Rightarrow> wire \<Rightarrow> string \<Rightarrow> string \<Rightarrow> bool" where
  "is_set cfg m fname alias =
     (case field_input cfg m fname alias of
        None \<Rightarrow> False
      | Some (k, v) \<Rightarrow> v \<noteq> JNull)"

section \<open>Properties\<close>

subsection \<open>Collected results and their errors\<close>

lemma collect_Inr_iff:
  "collect f x = Inr y \<longleftrightarrow> (\<exists>g a. f = Inr g \<and> x = Inr a \<and> y = g a)"
  by (cases f; cases x) auto

lemma collect_Inl_left: "collect (Inl es) x = Inl (es @ errors_of x)"
  by (cases x) (simp_all add: errors_of_def)

lemma errors_of_collect: "errors_of (collect f x) = errors_of f @ errors_of x"
  by (cases f; cases x) (simp_all add: errors_of_def)

lemma errors_of_simps [simp]: "errors_of (Inl es) = es" "errors_of (Inr x) = []"
  by (simp_all add: errors_of_def)

lemma errors_of_nonempty: "errors_of x \<noteq> [] \<Longrightarrow> x = Inl (errors_of x)"
  by (cases x) simp_all

lemma Config_simps [simp]:
  "allow_population_by_field_name (Config dc) = True" "extra (Config dc) = extra dc"
  by (simp_all add: Config_def)

lemma field_input_same [simp]: "field_input cfg m k k = map_option (Pair k) (map_of m k)"
  by (simp add: field_input_def split: option.splits)

lemma field_input_in:
  "field_input (Config dc) m ''security_scheme_in'' ''in'' =
     (case map_of m ''in'' of
        Some v \<Rightarrow> Some (''in'', v)
      | None \<Rightarrow> map_option (Pair ''security_scheme_in'') (map_of m ''security_scheme_in''))"
  by (simp add: field_input_def split: option.splits)

lemma validate_fields_Inr_iff:
  fixes r :: "'f SecurityScheme"
  shows "validate_fields cfg any_url fv m = Inr r \<longleftrightarrow>
     required_field str_validator ''type'' (field_input cfg m ''type'' ''type'') = Inr (type r) \<and>
     optional_field str_validator ''description''
       (field_input cfg m ''description'' ''description'') = Inr (description r) \<and>
     optional_field str_validator ''name'' (field_input cfg m ''name'' ''name'') = Inr (name r) \<and>
     optional_field str_validator ''in''
       (field_input cfg m ''security_scheme_in'' ''in'') = Inr (security_scheme_in r) \<and>
     optional_field str_validator ''scheme'' (field_input cfg m ''scheme'' ''scheme'') = Inr (scheme r) \<and>
     optional_field str_validator ''bearerFormat''
       (field_input cfg m ''bearerFormat'' ''bearerFormat'') = Inr (bearerFormat r) \<and>
     optional_field fv ''flows'' (field_input cfg m ''flows'' ''flows'') = Inr (flows r) \<and>
     optional_field (AnyUrl_or_str_validate any_url) ''openIdConnectUrl''
       (field_input cfg m ''openIdConnectUrl'' ''openIdConnectUrl'') = Inr (openIdConnectUrl r)"
  unfolding validate_fields_def collect_Inr_iff
  by (cases r) (auto simp: SecurityScheme.make_def)

lemma validate_model_Inr_iff:
  "validate_model dc any_url fv m = Inr r \<longleftrightarrow>
     validate_fields (Config dc) any_url fv m = Inr r \<and> extra_errors (Config dc) m = []"
  by (simp add: validate_model_def Let_def split: sum.splits list.splits)

lemma validate_model_Inl:
  "errors_of (validate_fields (Config dc) any_url fv m) \<noteq> [] \<Longrightarrow>
   validate_model dc any_url fv m =
     Inl (errors_of (validate_fields (Config dc) any_url fv m) @ extra_errors (Config dc) m)"
  by (cases "validate_fields (Config dc) any_url fv m") (simp_all add: validate_model_def)

lemma errors_of_validate_fields:
  "errors_of (validate_fields cfg any_url fv m) =
     errors_of (required_field str_validator ''type'' (field_input cfg m ''type'' ''type'')) @
     errors_of (optional_field str_validator ''description''
       (field_input cfg m ''description'' ''description'')) @
     errors_of (optional_field str_validator ''name'' (field_input cfg m ''name'' ''name'')) @
     errors_of (optional_field str_validator ''in''
       (field_input cfg m ''security_scheme_in'' ''in'')) @
     errors_of (optional_field str_validator ''scheme'' (field_input cfg m ''scheme'' ''scheme'')) @
     errors_of (optional_field str_validator ''bearerFormat''
       (field_input cfg m ''bearerFormat'' ''bearerFormat'')) @
     errors_of (optional_field fv ''flows'' (field_input cfg m ''flows'' ''flows'')) @
     errors_of (optional_field (AnyUrl_or_str_validate any_url) ''openIdConnectUrl''
       (field_input cfg m ''openIdConnectUrl'' ''openIdConnectUrl''))"
  by (simp add: validate_fields_def errors_of_collect)

lemma required_field_Inr_iff:
  "required_field validate alias inp = Inr x \<longleftrightarrow>
     (\<exists>k v. inp = Some (k, v) \<and> v \<noteq> JNull \<and> validate v = Inr x)"
  by (auto simp: required_field_def split: option.splits json.splits sum.splits)

lemma optional_field_Inr_iff:
  "optional_field validate alias inp = Inr x \<longleftrightarrow>
     (x = None \<and> (inp = None \<or> (\<exists>k. inp = Some (k, JNull)))) \<or>
     (\<exists>k v y. inp = Some (k, v) \<and> v \<noteq> JNull \<and> validate v = Inr y \<and> x = Some y)"
  by (auto simp: optional_field_def split: option.splits json.splits sum.splits)

subsection \<open>Keys used and keys left over\<close>

lemma set_map_filter: "set (List.map_filter f xs) = {y. \<exists>x\<in>set xs. f x = Some y}"
  by (induction xs) (auto split: option.splits)

lemma extra_errors_Nil_iff:
  "extra_errors cfg m = [] \<longleftrightarrow>
     extra cfg = ignore \<or> fst ` set m \<subseteq> set (names_used cfg m)"
proof (cases "extra cfg")
  case ignore
  then show ?thesis by (simp add: extra_errors_def)
next
  case forbid
  have "sort (remdups (filter (\<lambda>k. k \<notin> set (names_used cfg m)) (map fst m))) = [] \<longleftrightarrow>
        set (sort (remdups (filter (\<lambda>k. k \<notin> set (names_used cfg m)) (map fst m)))) = {}"
    by (simp only: set_empty)
  also have "\<dots> \<longleftrightarrow> fst ` set m \<subseteq> set (names_used cfg m)"
    by auto
  finally show ?thesis using forbid by (simp add: extra_errors_def)
qed

lemma alias_used:
  assumes "(fname, k) \<in> set fields" and "map_of m k = Some v"
  shows "k \<in> set (names_used cfg m)"
proof -
  have "field_input cfg m fname k = Some (k, v)"
    using assms(2) by (simp add: field_input_def)
  then have "(case (fname, k) of (fname, alias) \<Rightarrow> map_option fst (field_input cfg m fname alias)) = Some k"
    by simp
  with assms(1) show ?thesis
    unfolding names_used_def set_map_filter by blast
qed

lemma name_used:
  assumes "map_of m ''in'' = None" and "map_of m ''security_scheme_in'' = Some v"
  shows "''security_scheme_in'' \<in> set (names_used (Config dc) m)"
proof -
  have "(''security_scheme_in'', ''in'') \<in> set fields"
    by (simp add: fields_def)
  moreover have "(case (''security_scheme_in'', ''in'') of (fname, alias) \<Rightarrow>
      map_option fst (field_input (Config dc) m fname alias)) = Some ''security_scheme_in''"
    using assms by (simp add: field_input_in)
  ultimately show ?thesis
    unfolding names_used_def set_map_filter by blast
qed

lemma names_used_iff:
  "k \<in> set (names_used cfg m) \<longleftrightarrow>
     (\<exists>f a. (f, a) \<in> set fields \<and> map_option fst (field_input cfg m f a) = Some k)"
  unfolding names_used_def set_map_filter
  by (simp only: mem_Collect_eq Bex_def split_paired_Ex prod.case)

lemma fields_cases:
  assumes "(f, a) \<in> set fields"
  shows "(f = ''security_scheme_in'' \<and> a = ''in'') \<or>
         (f = a \<and> a \<noteq> ''in'' \<and> a \<noteq> ''security_scheme_in'')"
  using assms unfolding fields_def by (simp only: set_simps insert_iff empty_iff prod.inject) auto










subsection \<open>Lookups in an export\<close>

lemma map_of_item:
  "map_of (item en k ov @ rest) k' =
     (if k' = k
      then (case ov of Some j \<Rightarrow> Some j | None \<Rightarrow> if en then map_of rest k' else Some JNull)
      else map_of rest k')"
  by (simp add: item_def split: option.splits)

lemma map_of_item_last:
  "map_of (item en k ov) k' =
     (if k' = k
      then (case ov of Some j \<Rightarrow> Some j | None \<Rightarrow> if en then None else Some JNull)
      else None)"
  by (simp add: item_def split: option.splits)

lemma item_keys: "fst ` set (item en k ov) \<subseteq> {k}"
  by (simp add: item_def split: option.splits)

lemma optional_field_roundtrip:
  assumes "\<And>y. g y \<noteq> JNull" and "\<And>y. x = Some y \<Longrightarrow> validate (g y) = Inr y"
  shows "optional_field validate a
     (map_option (Pair k) (case map_option g x of Some j \<Rightarrow> Some j
        | None \<Rightarrow> if en then None else Some JNull)) = Inr x"
proof (cases x)
  case None
  then show ?thesis by (simp add: optional_field_def)
next
  case (Some y)
  with assms(2)[of y] assms(1)[of y] show ?thesis
    by (cases "g y") (simp_all add: optional_field_def)
qed

lemma dict_type: "map_of (dict ba en fd r) ''type'' = Some (JStr (type r))"
  by (simp add: dict_def map_of_item del: map_of_append)

lemma dict_description:
  "map_of (dict ba en fd r) ''description'' =
     (case map_option JStr (description r) of Some j \<Rightarrow> Some j
      | None \<Rightarrow> if en then None else Some JNull)"
  by (simp add: dict_def map_of_item map_of_item_last del: map_of_append cong: option.case_cong)


lemma dict_name:
  "map_of (dict ba en fd r) ''name'' =
     (case map_option JStr (name r) of Some j \<Rightarrow> Some j
      | None \<Rightarrow> if en then None else Some JNull)"
  by (simp add: dict_def map_of_item map_of_item_last del: map_of_append cong: option.case_cong)

lemma dict_scheme:
  "map_of (dict ba en fd r) ''scheme'' =
     (case map_option JStr (scheme r) of Some j \<Rightarrow> Some j
      | None \<Rightarrow> if en then None else Some JNull)"
  by (simp add: dict_def map_of_item map_of_item_last del: map_of_append cong: option.case_cong)

lemma dict_bearerFormat:
  "map_of (dict ba en fd r) ''bearerFormat'' =
     (case map_option JStr (bearerFormat r) of Some j \<Rightarrow> Some j
      | None \<Rightarrow> if en then None else Some JNull)"
  by (simp add: dict_def map_of_item map_of_item_last del: map_of_append cong: option.case_cong)

lemma dict_flows:
  "map_of (dict ba en fd r) ''flows'' =
     (case map_option (\<lambda>f. JObj (fd f)) (flows r) of Some j \<Rightarrow> Some j
      | None \<Rightarrow> if en then None else Some JNull)"
  by (simp add: dict_def map_of_item map_of_item_last del: map_of_append cong: option.case_cong)

lemma dict_openIdConnectUrl:
  "map_of (dict ba en fd r) ''openIdConnectUrl'' =
     (case map_option (\<lambda>u. JStr (AnyUrl_or_str_text u)) (openIdConnectUrl r) of Some j \<Rightarrow> Some j
      | None \<Rightarrow> if en then None else Some JNull)"
  by (simp add: dict_def map_of_item map_of_item_last del: map_of_append cong: option.case_cong)

lemma dict_in_by_alias:
  "map_of (dict True en fd r) ''in'' =
     (case map_option JStr (security_scheme_in r) of Some j \<Rightarrow> Some j
      | None \<Rightarrow> if en then None else Some JNull)"
  "map_of (dict True en fd r) ''security_scheme_in'' = None"
  by (simp_all add: dict_def map_of_item map_of_item_last del: map_of_append cong: option.case_cong)

lemma dict_in_by_name:
  "map_of (dict False en fd r) ''security_scheme_in'' =
     (case map_option JStr (security_scheme_in r) of Some j \<Rightarrow> Some j
      | None \<Rightarrow> if en then None else Some JNull)"
  "map_of (dict False en fd r) ''in'' = None"
  by (simp_all add: dict_def map_of_item map_of_item_last del: map_of_append cong: option.case_cong)

lemma dict_field_input_in:
  "field_input (Config dc) (dict ba en fd r) ''security_scheme_in'' ''in'' =
     map_option (Pair (if ba then ''in'' else ''security_scheme_in''))
       (case map_option JStr (security_scheme_in r) of Some j \<Rightarrow> Some j
        | None \<Rightarrow> if en then None else Some JNull)"
proof (cases ba)
  case True
  then show ?thesis
    by (cases "security_scheme_in r") (simp_all add: field_input_in dict_in_by_alias)
next
  case False
  then show ?thesis
    by (cases "security_scheme_in r") (simp_all add: field_input_in dict_in_by_name)
qed

lemma dict_keys:
  "fst ` set (dict ba en fd r) \<subseteq>
     {''type''} \<union> ({''description''} \<union> ({''name''} \<union> ({if ba then ''in'' else ''security_scheme_in''} \<union>
       ({''scheme''} \<union> ({''bearerFormat''} \<union> ({''flows''} \<union> {''openIdConnectUrl''}))))))"
  unfolding dict_def set_append image_Un
  by (intro Un_mono item_keys)

lemma dict_keys_used:
  "fst ` set (dict ba en fd r) \<subseteq> set (names_used (Config dc) (dict ba en fd r))"
proof
  fix k
  let ?d = "dict ba en fd r"
  assume k: "k \<in> fst ` set ?d"
  then obtain v where v: "map_of ?d k = Some v"
    using map_of_eq_None_iff[of ?d k] by (cases "map_of ?d k") simp_all
  have used: "(f, a) \<in> set fields \<Longrightarrow> k = a \<Longrightarrow> k \<in> set (names_used (Config dc) ?d)" for f a
    using alias_used[of f k ?d v] v by simp
  have by_name: "k = ''security_scheme_in'' \<Longrightarrow> \<not> ba \<Longrightarrow> k \<in> set (names_used (Config dc) ?d)"
    using name_used[of ?d v dc] v by (simp add: dict_in_by_name)
  have "k \<in> {''type''} \<union> ({''description''} \<union> ({''name''} \<union> ({if ba then ''in'' else ''security_scheme_in''} \<union>
       ({''scheme''} \<union> ({''bearerFormat''} \<union> ({''flows''} \<union> {''openIdConnectUrl''}))))))"
    by (rule subsetD[OF dict_keys k])
  then have "k = ''type'' \<or> k = ''description'' \<or> k = ''name'' \<or>
        k = (if ba then ''in'' else ''security_scheme_in'') \<or> k = ''scheme'' \<or>
        k = ''bearerFormat'' \<or> k = ''flows'' \<or> k = ''openIdConnectUrl''"
    by (simp only: Un_iff singleton_iff)
  then show "k \<in> set (names_used (Config dc) ?d)"
  proof (elim disjE)
    assume "k = ''type''"
    then show ?thesis by (rule used[rotated]) (simp add: fields_def)
  next
    assume "k = ''description''"
    then show ?thesis by (rule used[rotated]) (simp add: fields_def)
  next
    assume "k = ''name''"
    then show ?thesis by (rule used[rotated]) (simp add: fields_def)
  next
    assume *: "k = (if ba then ''in'' else ''security_scheme_in'')"
    show ?thesis
    proof (cases ba)
      case True
      with * have "k = ''in''" by simp
      then show ?thesis by (rule used[rotated]) (simp add: fields_def)
    next
      case False
      with * have "k = ''security_scheme_in''" by simp
      then show ?thesis using False by (rule by_name)
    qed
  next
    assume "k = ''scheme''"
    then show ?thesis by (rule used[rotated]) (simp add: fields_def)
  next
    assume "k = ''bearerFormat''"
    then show ?thesis by (rule used[rotated]) (simp add: fields_def)
  next
    assume "k = ''flows''"
    then show ?thesis by (rule used[rotated]) (simp add: fields_def)
  next
    assume "k = ''openIdConnectUrl''"
    then show ?thesis by (rule used[rotated]) (simp add: fields_def)
  qed
qed

lemma url_revalidate:
  assumes U: "\<And>s u. any_url s = Some u \<Longrightarrow> any_url u = Some u"
    and v: "AnyUrl_or_str_validate any_url v = Inr x"
  shows "AnyUrl_or_str_validate any_url (JStr (AnyUrl_or_str_text x)) = Inr x"
proof (cases "str_validator v")
  case (Inl es)
  with v show ?thesis
    by (simp add: AnyUrl_or_str_validate_def AnyUrl_validate_def)
next
  case (Inr s)
  show ?thesis
  proof (cases "any_url s")
    case None
    with Inr v have "x = Text s"
      by (simp add: AnyUrl_or_str_validate_def AnyUrl_validate_def)
    with None show ?thesis
      by (simp add: AnyUrl_or_str_validate_def AnyUrl_validate_def)
  next
    case (Some u)
    with Inr v have "x = Url u"
      by (simp add: AnyUrl_or_str_validate_def AnyUrl_validate_def)
    with U[OF Some] show ?thesis
      by (simp add: AnyUrl_or_str_validate_def AnyUrl_validate_def)
  qed
qed


subsection \<open>Single fields\<close>

lemma pair_of_char: "pair_of (JStr [c]) = None"
  by (simp add: pair_of_def)

lemma dict_of_scalar:
  "dict_of (JBool b) = None" "dict_of (JInt i) = None" "s \<noteq> [] \<Longrightarrow> dict_of (JStr s) = None"
  "dict_of (JStr []) = Some []"
  by (cases s; simp add: dict_of_def pair_of_char)+

lemma Model_validate_scalar:
  "Model_validate init (JBool b) = Inl [InvalidFieldValue [] NotAMapping]"
  "Model_validate init (JInt i) = Inl [InvalidFieldValue [] NotAMapping]"
  "s \<noteq> [] \<Longrightarrow> Model_validate init (JStr s) = Inl [InvalidFieldValue [] NotAMapping]"
  "Model_validate init (JStr []) = init []"
  "Model_validate init (JObj kvs) = init kvs"
  by (simp_all add: Model_validate_def dict_of_scalar keyword_args_def)

lemma OAuthFlows_validate_JObj: "OAuthFlows_validate (JObj kvs) = Inr (OAuthFlows kvs)"
  by (simp add: OAuthFlows_validate_def Model_validate_scalar OAuthFlows_init_def)

lemma flows_error:
  assumes "map_of m ''flows'' = Some v"
    and "v = JBool b \<or> v = JInt i \<or> (v = JStr s \<and> s \<noteq> [])"
  shows "optional_field (Model_validate init) ''flows'' (field_input cfg m ''flows'' ''flows'') =
         Inl [InvalidFieldValue [''flows''] NotAMapping]"
  using assms by (auto simp: optional_field_def Model_validate_scalar)

subsection \<open>Acceptance of single fields\<close>

lemma optional_field_accepts:
  assumes "\<And>k v. inp = Some (k, v) \<Longrightarrow> v = JNull \<or> (\<exists>y. validate v = Inr y)"
  shows "\<exists>x. optional_field validate a inp = Inr x"
proof (cases inp)
  case None
  then show ?thesis by (simp add: optional_field_def)
next
  case (Some kv)
  obtain k v where kv: "kv = (k, v)" by (cases kv)
  with Some assms[of k v] consider "v = JNull" | y where "v \<noteq> JNull" "validate v = Inr y"
    by auto
  then show ?thesis
  proof cases
    case 1
    with Some kv show ?thesis by (simp add: optional_field_def)
  next
    case 2
    with Some kv show ?thesis by (cases v) (simp_all add: optional_field_def)
  qed
qed

lemma str_field_accepts:
  assumes "\<And>v. map_of m k = Some v \<Longrightarrow> v = JNull \<or> (\<exists>s. v = JStr s)"
  shows "\<exists>x. optional_field str_validator a (field_input cfg m k k) = Inr x"
proof (rule optional_field_accepts)
  fix k' v
  assume "field_input cfg m k k = Some (k', v)"
  then have "map_of m k = Some v" by auto
  from assms[OF this] show "v = JNull \<or> (\<exists>y. str_validator v = Inr y)" by auto
qed

lemma any_string_accepted: "\<exists>x. AnyUrl_or_str_validate any_url (JStr s) = Inr x"
  by (cases "any_url s") (simp_all add: AnyUrl_or_str_validate_def AnyUrl_validate_def)

lemma AnyUrl_or_str_validate_JStr:
  "AnyUrl_or_str_validate any_url (JStr s) =
     Inr (case any_url s of Some u \<Rightarrow> Url u | None \<Rightarrow> Text s)"
  by (cases "any_url s") (simp_all add: AnyUrl_or_str_validate_def AnyUrl_validate_def)

lemma validate_fields_Inr_ex:
  assumes "\<exists>x. required_field str_validator ''type'' (field_input cfg m ''type'' ''type'') = Inr x"
    and "\<exists>x. optional_field str_validator ''description''
       (field_input cfg m ''description'' ''description'') = Inr x"
    and "\<exists>x. optional_field str_validator ''name'' (field_input cfg m ''name'' ''name'') = Inr x"
    and "\<exists>x. optional_field str_validator ''in''
       (field_input cfg m ''security_scheme_in'' ''in'') = Inr x"
    and "\<exists>x. optional_field str_validator ''scheme'' (field_input cfg m ''scheme'' ''scheme'') = Inr x"
    and "\<exists>x. optional_field str_validator ''bearerFormat''
       (field_input cfg m ''bearerFormat'' ''bearerFormat'') = Inr x"
    and "\<exists>x. optional_field fv ''flows'' (field_input cfg m ''flows'' ''flows'') = Inr x"
    and "\<exists>x. optional_field (AnyUrl_or_str_validate any_url) ''openIdConnectUrl''
       (field_input cfg m ''openIdConnectUrl'' ''openIdConnectUrl'') = Inr x"
  shows "\<exists>r. validate_fields cfg any_url fv m = Inr r"
proof -
  from assms obtain x1 x2 x3 x4 x5 x6 x7 x8 where
    "required_field str_validator ''type'' (field_input cfg m ''type'' ''type'') = Inr x1"
    "optional_field str_validator ''description''
       (field_input cfg m ''description'' ''description'') = Inr x2"
    "optional_field str_validator ''name'' (field_input cfg m ''name'' ''name'') = Inr x3"
    "optional_field str_validator ''in''
       (field_input cfg m ''security_scheme_in'' ''in'') = Inr x4"
    "optional_field str_validator ''scheme'' (field_input cfg m ''scheme'' ''scheme'') = Inr x5"
    "optional_field str_validator ''bearerFormat''
       (field_input cfg m ''bearerFormat'' ''bearerFormat'') = Inr x6"
    "optional_field fv ''flows'' (field_input cfg m ''flows'' ''flows'') = Inr x7"
    "optional_field (AnyUrl_or_str_validate any_url) ''openIdConnectUrl''
       (field_input cfg m ''openIdConnectUrl'' ''openIdConnectUrl'') = Inr x8"
    by blast
  then have "validate_fields cfg any_url fv m = Inr (SecurityScheme.make x1 x2 x3 x4 x5 x6 x7 x8)"
    unfolding validate_fields_def by (simp only: collect.simps)
  then show ?thesis ..
qed

lemma wire_keys_used:
  assumes "fst ` set m \<subseteq> snd ` set fields"
  shows "fst ` set m \<subseteq> set (names_used cfg m)"
proof
  fix k
  assume k: "k \<in> fst ` set m"
  then obtain v where v: "map_of m k = Some v"
    using map_of_eq_None_iff[of m k] by (cases "map_of m k") simp_all
  from k assms obtain f where "(f, k) \<in> set fields" by force
  then show "k \<in> set (names_used cfg m)" using v by (rule alias_used)
qed

lemma field_input_cons_other:
  assumes "a0 \<noteq> a" and "a0 \<noteq> f"
  shows "field_input cfg ((a0, v) # m) f a = field_input cfg m f a"
proof -
  from assms have "map_of ((a0, v) # m) a = map_of m a" "map_of ((a0, v) # m) f = map_of m f"
    by simp_all
  then show ?thesis unfolding field_input_def by (simp only:)
qed

lemma optional_field_JStr:
  "optional_field validate a (Some (k, JStr s)) =
     (case validate (JStr s) of Inl es \<Rightarrow> Inl (map (at_loc a) es) | Inr x \<Rightarrow> Inr (Some x))"
  by (simp add: optional_field_def)

lemma names_used_mono_cons:
  assumes a0: "(a0, a0) \<in> set fields"
  shows "set (names_used (Config dc) m) \<subseteq> set (names_used (Config dc) ((a0, v) # m))"
proof
  fix k
  assume "k \<in> set (names_used (Config dc) m)"
  then obtain f a where fa: "(f, a) \<in> set fields"
    and k: "map_option fst (field_input (Config dc) m f a) = Some k"
    unfolding names_used_iff by blast
  from fields_cases[OF a0] have n: "a0 \<noteq> ''in''" "a0 \<noteq> ''security_scheme_in''" by auto
  from fields_cases[OF fa]
  have "\<exists>f' a'. (f', a') \<in> set fields \<and>
      map_option fst (field_input (Config dc) ((a0, v) # m) f' a') = Some k"
  proof
    assume "f = ''security_scheme_in'' \<and> a = ''in''"
    with k n have "map_option fst (field_input (Config dc) ((a0, v) # m) f a) = Some k"
      by (simp add: field_input_cons_other)
    with fa show ?thesis by blast
  next
    assume *: "f = a \<and> a \<noteq> ''in'' \<and> a \<noteq> ''security_scheme_in''"
    show ?thesis
    proof (cases "a = a0")
      case True
      with * k have "k = a0" by auto
      then have "map_option fst (field_input (Config dc) ((a0, v) # m) a0 a0) = Some k" by simp
      with a0 show ?thesis by blast
    next
      case False
      with * k have "map_option fst (field_input (Config dc) ((a0, v) # m) f a) = Some k" by auto
      with fa show ?thesis by blast
    qed
  qed
  then show "k \<in> set (names_used (Config dc) ((a0, v) # m))"
    unfolding names_used_iff .
qed

lemma extra_errors_cons:
  assumes a0: "(a0, a0) \<in> set fields" and e: "extra_errors (Config dc) m = []"
  shows "extra_errors (Config dc) ((a0, v) # m) = []"
proof -
  have "a0 \<in> set (names_used (Config dc) ((a0, v) # m))"
    by (rule alias_used[OF a0]) simp
  moreover have "fst ` set m \<subseteq> set (names_used (Config dc) ((a0, v) # m))" if "extra dc = forbid"
    using e that names_used_mono_cons[OF a0, of dc m v] unfolding extra_errors_Nil_iff by auto
  ultimately show ?thesis
    unfolding extra_errors_Nil_iff by (cases "extra dc") simp_all
qed

lemma openIdConnectUrl_field: "(''openIdConnectUrl'', ''openIdConnectUrl'') \<in> set fields"
  by (simp add: fields_def)

lemma validate_model_openIdConnectUrl:
  fixes r :: "'f SecurityScheme"
  assumes ok: "validate_model dc any_url fv m = Inr r"
  shows "validate_model dc any_url fv ((''openIdConnectUrl'', JStr s) # m) =
     Inr (r\<lparr>openIdConnectUrl := Some (case any_url s of Some u \<Rightarrow> Url u | None \<Rightarrow> Text s)\<rparr>)"
proof -
  from ok have vf: "validate_fields (Config dc) any_url fv m = Inr r"
    and e: "extra_errors (Config dc) m = []"
    by (simp_all add: validate_model_Inr_iff)
  from vf have "validate_fields (Config dc) any_url fv ((''openIdConnectUrl'', JStr s) # m) =
     Inr (r\<lparr>openIdConnectUrl := Some (case any_url s of Some u \<Rightarrow> Url u | None \<Rightarrow> Text s)\<rparr>)"
    unfolding validate_fields_Inr_iff
    by (simp add: field_input_cons_other optional_field_JStr AnyUrl_or_str_validate_JStr)
  with extra_errors_cons[OF openIdConnectUrl_field e] show ?thesis
    by (simp add: validate_model_Inr_iff)
qed

subsection \<open>Keys of a serialization\<close>

lemma is_set_required:
  assumes "required_field validate a (field_input cfg m f a') = Inr x"
  shows "is_set cfg m f a'"
  using assms unfolding required_field_Inr_iff is_set_def by auto

lemma is_set_optional:
  assumes "optional_field validate a (field_input cfg m f a') = Inr x"
  shows "is_set cfg m f a' \<longleftrightarrow> x \<noteq> None"
  using assms unfolding optional_field_Inr_iff is_set_def by auto

lemma map_fst_item: "map fst (item True k (map_option g x)) = (if x \<noteq> None then [k] else [])"
  by (cases x) (simp_all add: item_def)

lemma filter_cons_append: "filter P (x # xs) = (if P x then [x] else []) @ filter P xs"
  by simp

lemma map_snd_if: "map snd (if c then [x] else []) = (if c then [snd x] else [])"
  by simp

lemma item_null_iff: "JNull \<in> snd ` set (item True k ov) \<longleftrightarrow> ov = Some JNull"
  by (cases ov) (auto simp: item_def)

lemma serialize_no_null: "JNull \<notin> snd ` set (serialize fd r)"
  unfolding serialize_def dict_def set_append image_Un Un_iff item_null_iff
  by simp

lemma serialize_keys:
  "map fst (serialize fd r) =
     [''type''] @ (if description r \<noteq> None then [''description''] else []) @
     (if name r \<noteq> None then [''name''] else []) @
     (if security_scheme_in r \<noteq> None then [''in''] else []) @
     (if scheme r \<noteq> None then [''scheme''] else []) @
     (if bearerFormat r \<noteq> None then [''bearerFormat''] else []) @
     (if flows r \<noteq> None then [''flows''] else []) @
     (if openIdConnectUrl r \<noteq> None then [''openIdConnectUrl''] else [])"
  unfolding serialize_def dict_def map_append map_fst_item if_True
  by (simp add: item_def split del: if_split)

text \<open>Unfolding the construction at a concrete input.\<close>

lemmas model_eval =
  validate_model_def validate_fields_def field_input_def required_field_def optional_field_def
  extra_errors_def names_used_def fields_def Config_def BaseConfig_def SecurityScheme.make_def
  AnyUrl_or_str_validate_def AnyUrl_validate_def OAuthFlows_validate_JObj example_any_url_def

subsection \<open>A missing type\<close>

text \<open>
  C2. For every input mapping that has no \<^verbatim>\<open>type\<close> key, construction fails, and
  \<open>MissingRequiredField\<close> for \<^verbatim>\<open>type\<close> is among the errors; it never succeeds. This holds
  under either policy for unknown keys and for any URL parser and any \<^verbatim>\<open>OAuthFlows\<close>.
\<close>

theorem type_missing_fails:
  assumes "map_of m ''type'' = None"
  shows "\<exists>es. validate_model dc any_url fv m = Inl es \<and> MissingRequiredField [''type''] \<in> set es"
proof -
  let ?es = "errors_of (validate_fields (Config dc) any_url fv m)"
  have "MissingRequiredField [''type''] \<in> set ?es"
    using assms by (simp add: errors_of_validate_fields required_field_def)
  moreover from this have "?es \<noteq> []" by auto
  ultimately show ?thesis
    using validate_model_Inl[of dc any_url fv m] by auto
qed

theorem type_missing_fails_witness:
  "map_of [(''scheme'', JStr ''basic'')] ''type'' = None \<and>
   (\<exists>es. validate_model BaseConfig example_any_url OAuthFlows_validate
          [(''scheme'', JStr ''basic'')] = Inl es \<and>
        MissingRequiredField [''type''] \<in> set es)"
  using type_missing_fails [of "[(''scheme'', JStr ''basic'')]" BaseConfig example_any_url
      OAuthFlows_validate]
  by simp

subsection \<open>Round trip\<close>

text \<open>
  C1. For every input \<open>m\<close> from which construction succeeds (a valid wire mapping; it then
  has a \<^verbatim>\<open>type\<close>), constructing again from the export of the record gives the same record:
  deserialize (serialize (deserialize m)) = deserialize m. This holds for the export under
  every choice of its two arguments, so in particular for \<open>serialize\<close>. The two collaborators
  are taken with their contracts: the URL parser accepts the text of a URL it has built
  and builds the same URL from it, and an \<^verbatim>\<open>OAuthFlows\<close> object is rebuilt from its own
  export.
\<close>

theorem roundtrip:
  fixes r :: "'f SecurityScheme"
  assumes U: "\<And>s u. any_url s = Some u \<Longrightarrow> any_url u = Some u"
    and F: "\<And>v f. fv v = Inr f \<Longrightarrow> fv (JObj (fd f)) = Inr f"
    and ok: "validate_model dc any_url fv m = Inr r"
  shows "validate_model dc any_url fv (dict ba en fd r) = Inr r"
proof -
  let ?d = "dict ba en fd r"
  let ?cfg = "Config dc"
  from ok have vf: "validate_fields ?cfg any_url fv m = Inr r"
    by (simp add: validate_model_Inr_iff)
  from vf have f7: "optional_field fv ''flows'' (field_input ?cfg m ''flows'' ''flows'') = Inr (flows r)"
    and f8: "optional_field (AnyUrl_or_str_validate any_url) ''openIdConnectUrl''
       (field_input ?cfg m ''openIdConnectUrl'' ''openIdConnectUrl'') = Inr (openIdConnectUrl r)"
    by (simp_all only: validate_fields_Inr_iff)
  have fl: "fv (JObj (fd f)) = Inr f" if "flows r = Some f" for f
  proof -
    from f7 that obtain v where "fv v = Inr f"
      unfolding optional_field_Inr_iff by auto
    then show ?thesis by (rule F)
  qed
  have ou: "AnyUrl_or_str_validate any_url (JStr (AnyUrl_or_str_text x)) = Inr x"
    if "openIdConnectUrl r = Some x" for x
  proof -
    from f8 that obtain v where "AnyUrl_or_str_validate any_url v = Inr x"
      unfolding optional_field_Inr_iff by auto
    then show ?thesis using url_revalidate[of any_url v x] U by blast
  qed
  have 1: "required_field str_validator ''type'' (field_input ?cfg ?d ''type'' ''type'') = Inr (type r)"
    by (simp add: dict_type required_field_def)
  have 2: "optional_field str_validator ''description''
       (field_input ?cfg ?d ''description'' ''description'') = Inr (description r)"
    unfolding field_input_same dict_description by (rule optional_field_roundtrip) simp_all
  have 3: "optional_field str_validator ''name'' (field_input ?cfg ?d ''name'' ''name'') = Inr (name r)"
    unfolding field_input_same dict_name by (rule optional_field_roundtrip) simp_all
  have 4: "optional_field str_validator ''in''
       (field_input ?cfg ?d ''security_scheme_in'' ''in'') = Inr (security_scheme_in r)"
    unfolding dict_field_input_in by (rule optional_field_roundtrip) simp_all
  have 5: "optional_field str_validator ''scheme'' (field_input ?cfg ?d ''scheme'' ''scheme'') = Inr (scheme r)"
    unfolding field_input_same dict_scheme by (rule optional_field_roundtrip) simp_all
  have 6: "optional_field str_validator ''bearerFormat''
       (field_input ?cfg ?d ''bearerFormat'' ''bearerFormat'') = Inr (bearerFormat r)"
    unfolding field_input_same dict_bearerFormat by (rule optional_field_roundtrip) simp_all
  have 7: "optional_field fv ''flows'' (field_input ?cfg ?d ''flows'' ''flows'') = Inr (flows r)"
    unfolding field_input_same dict_flows by (rule optional_field_roundtrip) (simp_all add: fl)
  have 8: "optional_field (AnyUrl_or_str_validate any_url) ''openIdConnectUrl''
       (field_input ?cfg ?d ''openIdConnectUrl'' ''openIdConnectUrl'') = Inr (openIdConnectUrl r)"
    unfolding field_input_same dict_openIdConnectUrl by (rule optional_field_roundtrip) (simp_all add: ou)
  have "validate_fields ?cfg any_url fv ?d = Inr r"
    unfolding validate_fields_Inr_iff using 1 2 3 4 5 6 7 8 by (intro conjI)
  moreover have "extra_errors ?cfg ?d = []"
    unfolding extra_errors_Nil_iff using dict_keys_used by blast
  ultimately show ?thesis
    by (simp add: validate_model_Inr_iff)
qed

theorem roundtrip_witness:
  "validate_model BaseConfig example_any_url OAuthFlows_validate
     [(''type'', JStr ''oauth2''),
      (''flows'', JObj [(''implicit'', JObj [(''authorizationUrl'', JStr ''https://example.com/api/oauth/dialog'')])]),
      (''openIdConnectUrl'', JStr ''https://example.com/openIdConnect'')] =
     Inr \<lparr>type = ''oauth2'', description = None, name = None, security_scheme_in = None,
          scheme = None, bearerFormat = None,
          flows = Some (OAuthFlows [(''implicit'', JObj [(''authorizationUrl'', JStr ''https://example.com/api/oauth/dialog'')])]),
          openIdConnectUrl = Some (Url ''https://example.com/openIdConnect'')\<rparr> \<and>
   validate_model BaseConfig example_any_url OAuthFlows_validate
     (dict True True OAuthFlows_dict
        \<lparr>type = ''oauth2'', description = None, name = None, security_scheme_in = None,
          scheme = None, bearerFormat = None,
          flows = Some (OAuthFlows [(''implicit'', JObj [(''authorizationUrl'', JStr ''https://example.com/api/oauth/dialog'')])]),
          openIdConnectUrl = Some (Url ''https://example.com/openIdConnect'')\<rparr>) =
     Inr \<lparr>type = ''oauth2'', description = None, name = None, security_scheme_in = None,
          scheme = None, bearerFormat = None,
          flows = Some (OAuthFlows [(''implicit'', JObj [(''authorizationUrl'', JStr ''https://example.com/api/oauth/dialog'')])]),
          openIdConnectUrl = Some (Url ''https://example.com/openIdConnect'')\<rparr>"
proof -
  have U: "\<And>s u. example_any_url s = Some u \<Longrightarrow> example_any_url u = Some u"
    by (auto simp: example_any_url_def Let_def split: if_splits)
  have F: "OAuthFlows_validate v = Inr f \<Longrightarrow>
      OAuthFlows_validate (JObj (OAuthFlows_dict f)) = Inr f" for v f
    by (cases f) (simp add: OAuthFlows_validate_JObj)
  have ok: "validate_model BaseConfig example_any_url OAuthFlows_validate
     [(''type'', JStr ''oauth2''),
      (''flows'', JObj [(''implicit'', JObj [(''authorizationUrl'', JStr ''https://example.com/api/oauth/dialog'')])]),
      (''openIdConnectUrl'', JStr ''https://example.com/openIdConnect'')] =
     Inr \<lparr>type = ''oauth2'', description = None, name = None, security_scheme_in = None,
          scheme = None, bearerFormat = None,
          flows = Some (OAuthFlows [(''implicit'', JObj [(''authorizationUrl'', JStr ''https://example.com/api/oauth/dialog'')])]),
          openIdConnectUrl = Some (Url ''https://example.com/openIdConnect'')\<rparr>"
    by (simp add: model_eval)
  from roundtrip [of example_any_url OAuthFlows_validate OAuthFlows_dict BaseConfig _ _ True True,
      OF U F ok] ok
  show ?thesis by simp
qed

subsection \<open>Alias and field name\<close>



subsection \<open>The values of type\<close>

text \<open>
  C7, as amended. In every successfully constructed SecurityScheme the \<^verbatim>\<open>type\<close> field is
  present and holds the string given under \<^verbatim>\<open>type\<close> in the input (a number or a boolean
  rendered as text); the field is declared \<^verbatim>\<open>str\<close>, so every string is accepted and stored
  as it is, and the five documented values are not enforced.
\<close>

theorem type_any_string:
  "(validate_model dc any_url fv m = Inr r \<longrightarrow>
      (\<exists>v. map_of m ''type'' = Some v \<and> v \<noteq> JNull \<and> str_validator v = Inr (type r))) \<and>
   validate_model dc any_url fv [(''type'', JStr t)] =
     Inr \<lparr>type = t, description = None, name = None, security_scheme_in = None, scheme = None,
          bearerFormat = None, flows = None, openIdConnectUrl = None\<rparr>"
proof (intro conjI impI)
  assume "validate_model dc any_url fv m = Inr r"
  then have "required_field str_validator ''type'' (field_input (Config dc) m ''type'' ''type'') = Inr (type r)"
    by (simp only: validate_model_Inr_iff validate_fields_Inr_iff)
  then show "\<exists>v. map_of m ''type'' = Some v \<and> v \<noteq> JNull \<and> str_validator v = Inr (type r)"
    unfolding required_field_Inr_iff by auto
next
  show "validate_model dc any_url fv [(''type'', JStr t)] =
     Inr \<lparr>type = t, description = None, name = None, security_scheme_in = None, scheme = None,
          bearerFormat = None, flows = None, openIdConnectUrl = None\<rparr>"
    by (cases "extra dc") (simp_all add: model_eval)
qed

theorem type_any_string_witness:
  "validate_model BaseConfig example_any_url OAuthFlows_validate
     [(''type'', JInt 42), (''scheme'', JStr ''basic'')] =
     Inr \<lparr>type = ''42'', description = None, name = None, security_scheme_in = None,
          scheme = Some ''basic'', bearerFormat = None, flows = None, openIdConnectUrl = None\<rparr> \<and>
   (\<exists>v. map_of [(''type'', JInt 42), (''scheme'', JStr ''basic'')] ''type'' = Some v \<and> v \<noteq> JNull \<and>
        str_validator v = Inr ''42'')"
proof -
  have ok: "validate_model BaseConfig example_any_url OAuthFlows_validate
     [(''type'', JInt 42), (''scheme'', JStr ''basic'')] =
     Inr \<lparr>type = ''42'', description = None, name = None, security_scheme_in = None,
          scheme = Some ''basic'', bearerFormat = None, flows = None, openIdConnectUrl = None\<rparr>"
    by (simp add: model_eval str_int_def digit_char_def)
  with type_any_string [of BaseConfig example_any_url OAuthFlows_validate
      "[(''type'', JInt 42), (''scheme'', JStr ''basic'')]"
      "\<lparr>type = ''42'', description = None, name = None, security_scheme_in = None,
        scheme = Some ''basic'', bearerFormat = None, flows = None, openIdConnectUrl = None\<rparr>" "[]"]
  show ?thesis by simp
qed

theorem type_enum_counterexample:
  "validate_model BaseConfig example_any_url OAuthFlows_validate [(''type'', JStr ''foo'')] =
     Inr \<lparr>type = ''foo'', description = None, name = None, security_scheme_in = None,
          scheme = None, bearerFormat = None, flows = None, openIdConnectUrl = None\<rparr> \<and>
   ''foo'' \<notin> set [''apiKey'', ''http'', ''mutualTLS'', ''oauth2'', ''openIdConnect'']"
  by (simp add: model_eval)

subsection \<open>The values of the location\<close>

text \<open>
  C8, as amended. In every successfully constructed SecurityScheme in which the location
  (wire name \<^verbatim>\<open>in\<close>, internal name \<^verbatim>\<open>security_scheme_in\<close>) is set, its value is the string
  given for it in the input, under the alias or else under the name; the field is declared
  \<^verbatim>\<open>Optional[str]\<close>, so every string is accepted and stored as it is, and the three
  documented values are not enforced.
\<close>

theorem location_any_string:
  "(validate_model dc any_url fv m = Inr r \<and> security_scheme_in r = Some x \<longrightarrow>
      (\<exists>k v. field_input (Config dc) m ''security_scheme_in'' ''in'' = Some (k, v) \<and>
         str_validator v = Inr x)) \<and>
   validate_model dc any_url fv [(''type'', JStr t), (''in'', JStr x)] =
     Inr \<lparr>type = t, description = None, name = None, security_scheme_in = Some x, scheme = None,
          bearerFormat = None, flows = None, openIdConnectUrl = None\<rparr>"
proof (intro conjI impI)
  assume a: "validate_model dc any_url fv m = Inr r \<and> security_scheme_in r = Some x"
  then have "optional_field str_validator ''in''
      (field_input (Config dc) m ''security_scheme_in'' ''in'') = Inr (security_scheme_in r)"
    by (simp only: validate_model_Inr_iff validate_fields_Inr_iff)
  with a show "\<exists>k v. field_input (Config dc) m ''security_scheme_in'' ''in'' = Some (k, v) \<and>
      str_validator v = Inr x"
    unfolding optional_field_Inr_iff by auto
next
  show "validate_model dc any_url fv [(''type'', JStr t), (''in'', JStr x)] =
     Inr \<lparr>type = t, description = None, name = None, security_scheme_in = Some x, scheme = None,
          bearerFormat = None, flows = None, openIdConnectUrl = None\<rparr>"
    by (cases "extra dc") (simp_all add: model_eval)
qed

theorem location_any_string_witness:
  "validate_model BaseConfig example_any_url OAuthFlows_validate
     [(''type'', JStr ''apiKey''), (''name'', JStr ''api_key''), (''security_scheme_in'', JStr ''header'')] =
     Inr \<lparr>type = ''apiKey'', description = None, name = Some ''api_key'',
          security_scheme_in = Some ''header'', scheme = None, bearerFormat = None, flows = None,
          openIdConnectUrl = None\<rparr> \<and>
   (\<exists>k v. field_input (Config BaseConfig)
        [(''type'', JStr ''apiKey''), (''name'', JStr ''api_key''), (''security_scheme_in'', JStr ''header'')]
        ''security_scheme_in'' ''in'' = Some (k, v) \<and> str_validator v = Inr ''header'')"
proof -
  have ok: "validate_model BaseConfig example_any_url OAuthFlows_validate
     [(''type'', JStr ''apiKey''), (''name'', JStr ''api_key''), (''security_scheme_in'', JStr ''header'')] =
     Inr \<lparr>type = ''apiKey'', description = None, name = Some ''api_key'',
          security_scheme_in = Some ''header'', scheme = None, bearerFormat = None, flows = None,
          openIdConnectUrl = None\<rparr>"
    by (simp add: model_eval)
  with location_any_string [of BaseConfig example_any_url OAuthFlows_validate
      "[(''type'', JStr ''apiKey''), (''name'', JStr ''api_key''), (''security_scheme_in'', JStr ''header'')]"
      "\<lparr>type = ''apiKey'', description = None, name = Some ''api_key'',
        security_scheme_in = Some ''header'', scheme = None, bearerFormat = None, flows = None,
        openIdConnectUrl = None\<rparr>" "''header''" "[]"]
  show ?thesis by simp
qed

theorem location_enum_counterexample:
  "validate_model BaseConfig example_any_url OAuthFlows_validate
     [(''type'', JStr ''apiKey''), (''name'', JStr ''api_key''), (''in'', JStr ''body'')] =
     Inr \<lparr>type = ''apiKey'', description = None, name = Some ''api_key'',
          security_scheme_in = Some ''body'', scheme = None, bearerFormat = None, flows = None,
          openIdConnectUrl = None\<rparr> \<and>
   ''body'' \<notin> set [''query'', ''header'', ''cookie'']"
  by (simp add: model_eval)

subsection \<open>A scalar for flows\<close>

text \<open>
  C9, as amended. For every input in which \<^verbatim>\<open>flows\<close> is bound to a boolean, a number or
  a string that is not empty, construction fails, with \<open>InvalidFieldValue\<close> for \<^verbatim>\<open>flows\<close>
  among the errors, and no record is produced; this holds whatever the constructor of
  \<^verbatim>\<open>OAuthFlows\<close> does, since the value never reaches it. Bound to \<^verbatim>\<open>None\<close>, the field is left
  unset and construction goes on: the field is \<^verbatim>\<open>Optional\<close>. Bound to the empty string,
  the value is converted to the empty mapping and given to the constructor.
\<close>

theorem flows_scalar_fails:
  assumes "map_of m ''flows'' = Some v"
    and "v = JBool b \<or> v = JInt i \<or> (v = JStr s \<and> s \<noteq> [])"
  shows "\<exists>es. validate_model dc any_url (Model_validate init) m = Inl es \<and>
           InvalidFieldValue [''flows''] NotAMapping \<in> set es"
proof -
  let ?es = "errors_of (validate_fields (Config dc) any_url (Model_validate init) m)"
  have "InvalidFieldValue [''flows''] NotAMapping \<in> set ?es"
    unfolding errors_of_validate_fields flows_error[OF assms] by simp
  moreover from this have "?es \<noteq> []" by auto
  ultimately show ?thesis
    using validate_model_Inl[of dc any_url "Model_validate init" m] by auto
qed

theorem flows_scalar_fails_witness:
  "map_of [(''type'', JStr ''oauth2''), (''flows'', JStr ''implicit'')] ''flows'' = Some (JStr ''implicit'') \<and>
   ''implicit'' \<noteq> [] \<and>
   (\<exists>es. validate_model BaseConfig example_any_url (Model_validate OAuthFlows_init)
          [(''type'', JStr ''oauth2''), (''flows'', JStr ''implicit'')] = Inl es \<and>
        InvalidFieldValue [''flows''] NotAMapping \<in> set es)"
  using flows_scalar_fails [of "[(''type'', JStr ''oauth2''), (''flows'', JStr ''implicit'')]"
      "JStr ''implicit''" True 0 "''implicit''" BaseConfig example_any_url OAuthFlows_init]
  by simp

theorem flows_null_counterexample:
  "validate_model BaseConfig example_any_url (Model_validate OAuthFlows_init)
     [(''type'', JStr ''oauth2''), (''flows'', JNull)] =
     Inr \<lparr>type = ''oauth2'', description = None, name = None, security_scheme_in = None,
          scheme = None, bearerFormat = None, flows = None, openIdConnectUrl = None\<rparr> \<and>
   validate_model BaseConfig example_any_url (Model_validate OAuthFlows_init)
     [(''type'', JStr ''oauth2''), (''flows'', JStr [])] =
     Inr \<lparr>type = ''oauth2'', description = None, name = None, security_scheme_in = None,
          scheme = None, bearerFormat = None, flows = Some (OAuthFlows []),
          openIdConnectUrl = None\<rparr>"
  by (simp add: model_eval Model_validate_scalar OAuthFlows_init_def)

subsection \<open>The URL or text of openIdConnectUrl\<close>

text \<open>
  C4. Construction accepts any string for \<^verbatim>\<open>openIdConnectUrl\<close>: added to an input from
  which construction succeeds, it never causes an error. The value
  \<^verbatim>\<open>https://example.com/openIdConnect\<close> is stored as a URL and the value \<^verbatim>\<open>openIdConnect\<close>
  as plain text, and for both the export, under every choice of its arguments, gives back
  exactly the input string. That the library's parser takes the first for a URL, with
  its text unchanged, and rejects the second are the two hypotheses.
\<close>

theorem openIdConnectUrl_any_string:
  fixes r :: "'f SecurityScheme"
  assumes url: "any_url ''https://example.com/openIdConnect'' = Some ''https://example.com/openIdConnect''"
    and opaque: "any_url ''openIdConnect'' = None"
    and ok: "validate_model dc any_url fv m = Inr r"
  shows "(\<exists>r'. validate_model dc any_url fv ((''openIdConnectUrl'', JStr s) # m) = Inr r') \<and>
     validate_model dc any_url fv ((''openIdConnectUrl'', JStr ''https://example.com/openIdConnect'') # m) =
       Inr (r\<lparr>openIdConnectUrl := Some (Url ''https://example.com/openIdConnect'')\<rparr>) \<and>
     map_of (dict ba en fd (r\<lparr>openIdConnectUrl := Some (Url ''https://example.com/openIdConnect'')\<rparr>))
       ''openIdConnectUrl'' = Some (JStr ''https://example.com/openIdConnect'') \<and>
     validate_model dc any_url fv ((''openIdConnectUrl'', JStr ''openIdConnect'') # m) =
       Inr (r\<lparr>openIdConnectUrl := Some (Text ''openIdConnect'')\<rparr>) \<and>
     map_of (dict ba en fd (r\<lparr>openIdConnectUrl := Some (Text ''openIdConnect'')\<rparr>))
       ''openIdConnectUrl'' = Some (JStr ''openIdConnect'')"
  using validate_model_openIdConnectUrl[OF ok, of s]
    validate_model_openIdConnectUrl[OF ok, of "''https://example.com/openIdConnect''"]
    validate_model_openIdConnectUrl[OF ok, of "''openIdConnect''"] url opaque
  by (simp add: dict_openIdConnectUrl)

theorem openIdConnectUrl_any_string_witness:
  "example_any_url ''https://example.com/openIdConnect'' = Some ''https://example.com/openIdConnect'' \<and>
   example_any_url ''openIdConnect'' = None \<and>
   validate_model BaseConfig example_any_url OAuthFlows_validate [(''type'', JStr ''openIdConnect'')] =
     Inr \<lparr>type = ''openIdConnect'', description = None, name = None, security_scheme_in = None,
          scheme = None, bearerFormat = None, flows = None, openIdConnectUrl = None\<rparr> \<and>
   validate_model BaseConfig example_any_url OAuthFlows_validate
     [(''openIdConnectUrl'', JStr ''https://example.com/openIdConnect''), (''type'', JStr ''openIdConnect'')] =
     Inr \<lparr>type = ''openIdConnect'', description = None, name = None, security_scheme_in = None,
          scheme = None, bearerFormat = None, flows = None,
          openIdConnectUrl = Some (Url ''https://example.com/openIdConnect'')\<rparr> \<and>
   map_of (dict True True OAuthFlows_dict
     \<lparr>type = ''openIdConnect'', description = None, name = None, security_scheme_in = None,
          scheme = None, bearerFormat = None, flows = None,
          openIdConnectUrl = Some (Url ''https://example.com/openIdConnect'')\<rparr>) ''openIdConnectUrl'' =
     Some (JStr ''https://example.com/openIdConnect'') \<and>
   validate_model BaseConfig example_any_url OAuthFlows_validate
     [(''openIdConnectUrl'', JStr ''openIdConnect''), (''type'', JStr ''openIdConnect'')] =
     Inr \<lparr>type = ''openIdConnect'', description = None, name = None, security_scheme_in = None,
          scheme = None, bearerFormat = None, flows = None,
          openIdConnectUrl = Some (Text ''openIdConnect'')\<rparr> \<and>
   map_of (dict True True OAuthFlows_dict
     \<lparr>type = ''openIdConnect'', description = None, name = None, security_scheme_in = None,
          scheme = None, bearerFormat = None, flows = None,
          openIdConnectUrl = Some (Text ''openIdConnect'')\<rparr>) ''openIdConnectUrl'' =
     Some (JStr ''openIdConnect'')"
proof -
  have url: "example_any_url ''https://example.com/openIdConnect'' = Some ''https://example.com/openIdConnect''"
    by (simp add: example_any_url_def)
  have opaque: "example_any_url ''openIdConnect'' = None"
    by (simp add: example_any_url_def)
  have ok: "validate_model BaseConfig example_any_url OAuthFlows_validate [(''type'', JStr ''openIdConnect'')] =
     Inr \<lparr>type = ''openIdConnect'', description = None, name = None, security_scheme_in = None,
          scheme = None, bearerFormat = None, flows = None, openIdConnectUrl = None\<rparr>"
    by (simp add: model_eval)
  from openIdConnectUrl_any_string [OF url opaque ok, of "[]" True True OAuthFlows_dict] url opaque ok
  show ?thesis by simp
qed

subsection \<open>Only the fields that were set\<close>

text \<open>
  C5. For every constructed SecurityScheme the serialized mapping has exactly the fields
  that were set at construction, in the order of the class and under their wire names:
  a key is in the output if and only if the input gave its field a value other than
  \<^verbatim>\<open>None\<close> (under the alias or, failing that, the name). A field that was not set is
  absent, and no key of the output holds a null.
\<close>

theorem only_set_fields_serialized:
  fixes r :: "'f SecurityScheme"
  assumes ok: "validate_model dc any_url fv m = Inr r"
  shows "map fst (serialize fd r) =
           map snd (filter (\<lambda>(f, a). is_set (Config dc) m f a) fields) \<and>
         JNull \<notin> snd ` set (serialize fd r)"
proof
  let ?cfg = "Config dc"
  from ok have vf: "validate_fields ?cfg any_url fv m = Inr r"
    by (simp add: validate_model_Inr_iff)
  then have
    f1: "required_field str_validator ''type'' (field_input ?cfg m ''type'' ''type'') = Inr (type r)" and
    f2: "optional_field str_validator ''description''
       (field_input ?cfg m ''description'' ''description'') = Inr (description r)" and
    f3: "optional_field str_validator ''name'' (field_input ?cfg m ''name'' ''name'') = Inr (name r)" and
    f4: "optional_field str_validator ''in''
       (field_input ?cfg m ''security_scheme_in'' ''in'') = Inr (security_scheme_in r)" and
    f5: "optional_field str_validator ''scheme'' (field_input ?cfg m ''scheme'' ''scheme'') = Inr (scheme r)" and
    f6: "optional_field str_validator ''bearerFormat''
       (field_input ?cfg m ''bearerFormat'' ''bearerFormat'') = Inr (bearerFormat r)" and
    f7: "optional_field fv ''flows'' (field_input ?cfg m ''flows'' ''flows'') = Inr (flows r)" and
    f8: "optional_field (AnyUrl_or_str_validate any_url) ''openIdConnectUrl''
       (field_input ?cfg m ''openIdConnectUrl'' ''openIdConnectUrl'') = Inr (openIdConnectUrl r)"
    by (simp_all only: validate_fields_Inr_iff)
  have s: "is_set ?cfg m ''type'' ''type'' = True"
    "is_set ?cfg m ''description'' ''description'' = (description r \<noteq> None)"
    "is_set ?cfg m ''name'' ''name'' = (name r \<noteq> None)"
    "is_set ?cfg m ''security_scheme_in'' ''in'' = (security_scheme_in r \<noteq> None)"
    "is_set ?cfg m ''scheme'' ''scheme'' = (scheme r \<noteq> None)"
    "is_set ?cfg m ''bearerFormat'' ''bearerFormat'' = (bearerFormat r \<noteq> None)"
    "is_set ?cfg m ''flows'' ''flows'' = (flows r \<noteq> None)"
    "is_set ?cfg m ''openIdConnectUrl'' ''openIdConnectUrl'' = (openIdConnectUrl r \<noteq> None)"
    using is_set_required[OF f1] is_set_optional[OF f2] is_set_optional[OF f3]
      is_set_optional[OF f4] is_set_optional[OF f5] is_set_optional[OF f6]
      is_set_optional[OF f7] is_set_optional[OF f8]
    by simp_all
  show "map fst (serialize fd r) = map snd (filter (\<lambda>(f, a). is_set ?cfg m f a) fields)"
    unfolding serialize_keys fields_def filter_cons_append prod.case s map_append map_snd_if snd_conv
    by (simp split del: if_split)
  show "JNull \<notin> snd ` set (serialize fd r)"
    by (rule serialize_no_null)
qed

theorem only_set_fields_serialized_witness:
  "validate_model BaseConfig example_any_url OAuthFlows_validate
     [(''type'', JStr ''http''), (''scheme'', JStr ''basic''), (''name'', JNull)] =
     Inr \<lparr>type = ''http'', description = None, name = None, security_scheme_in = None,
          scheme = Some ''basic'', bearerFormat = None, flows = None, openIdConnectUrl = None\<rparr> \<and>
   serialize OAuthFlows_dict
     \<lparr>type = ''http'', description = None, name = None, security_scheme_in = None,
          scheme = Some ''basic'', bearerFormat = None, flows = None, openIdConnectUrl = None\<rparr> =
     [(''type'', JStr ''http''), (''scheme'', JStr ''basic'')] \<and>
   map snd (filter (\<lambda>(f, a). is_set (Config BaseConfig)
       [(''type'', JStr ''http''), (''scheme'', JStr ''basic''), (''name'', JNull)] f a) fields) =
     [''type'', ''scheme'']"
proof -
  have ok: "validate_model BaseConfig example_any_url OAuthFlows_validate
     [(''type'', JStr ''http''), (''scheme'', JStr ''basic''), (''name'', JNull)] =
     Inr \<lparr>type = ''http'', description = None, name = None, security_scheme_in = None,
          scheme = Some ''basic'', bearerFormat = None, flows = None, openIdConnectUrl = None\<rparr>"
    by (simp add: model_eval)
  have ser: "serialize OAuthFlows_dict
     \<lparr>type = ''http'', description = None, name = None, security_scheme_in = None,
          scheme = Some ''basic'', bearerFormat = None, flows = None, openIdConnectUrl = None\<rparr> =
     [(''type'', JStr ''http''), (''scheme'', JStr ''basic'')]"
    by (simp add: serialize_def dict_def item_def)
  from only_set_fields_serialized [OF ok, of OAuthFlows_dict] ok ser
  show ?thesis by simp
qed

subsection \<open>No requirement between type and the other fields\<close>

text \<open>
  C6. For every input with a string under \<^verbatim>\<open>type\<close>, whichever string it is, construction
  succeeds as soon as each of the other keys that is present holds a value of its own
  kind (null or a string; for \<^verbatim>\<open>flows\<close> null or a value that \<^verbatim>\<open>OAuthFlows\<close> accepts), and,
  where unknown keys are rejected, the keys are wire names. No condition relates the value
  of \<^verbatim>\<open>type\<close> to which of the other fields are set or unset: a field required by the
  documentation for this type may be missing, and a field of another type may be present.
\<close>

theorem no_conditional_requirements:
  assumes t: "map_of m ''type'' = Some (JStr t)"
    and strs: "\<forall>k \<in> set [''description'', ''name'', ''in'', ''security_scheme_in'', ''scheme'',
        ''bearerFormat'', ''openIdConnectUrl''].
        \<forall>v. map_of m k = Some v \<longrightarrow> v = JNull \<or> (\<exists>s. v = JStr s)"
    and fl: "\<forall>v. map_of m ''flows'' = Some v \<longrightarrow> v = JNull \<or> (\<exists>f. fv v = Inr f)"
    and ex: "extra dc = forbid \<longrightarrow> fst ` set m \<subseteq> snd ` set fields"
  shows "\<exists>r. validate_model dc any_url fv m = Inr r \<and> type r = t"
proof -
  let ?cfg = "Config dc"
  have s: "\<And>v. map_of m ''description'' = Some v \<Longrightarrow> v = JNull \<or> (\<exists>s. v = JStr s)"
    "\<And>v. map_of m ''name'' = Some v \<Longrightarrow> v = JNull \<or> (\<exists>s. v = JStr s)"
    "\<And>v. map_of m ''in'' = Some v \<Longrightarrow> v = JNull \<or> (\<exists>s. v = JStr s)"
    "\<And>v. map_of m ''security_scheme_in'' = Some v \<Longrightarrow> v = JNull \<or> (\<exists>s. v = JStr s)"
    "\<And>v. map_of m ''scheme'' = Some v \<Longrightarrow> v = JNull \<or> (\<exists>s. v = JStr s)"
    "\<And>v. map_of m ''bearerFormat'' = Some v \<Longrightarrow> v = JNull \<or> (\<exists>s. v = JStr s)"
    "\<And>v. map_of m ''openIdConnectUrl'' = Some v \<Longrightarrow> v = JNull \<or> (\<exists>s. v = JStr s)"
    using strs by simp_all
  have 1: "required_field str_validator ''type'' (field_input ?cfg m ''type'' ''type'') = Inr t"
    using t by (simp add: required_field_def)
  have 2: "\<exists>x. optional_field str_validator ''description''
       (field_input ?cfg m ''description'' ''description'') = Inr x"
    by (rule str_field_accepts) (rule s)
  have 3: "\<exists>x. optional_field str_validator ''name'' (field_input ?cfg m ''name'' ''name'') = Inr x"
    by (rule str_field_accepts) (rule s)
  have 4: "\<exists>x. optional_field str_validator ''in''
       (field_input ?cfg m ''security_scheme_in'' ''in'') = Inr x"
  proof (rule optional_field_accepts)
    fix k v
    assume "field_input ?cfg m ''security_scheme_in'' ''in'' = Some (k, v)"
    then have "map_of m ''in'' = Some v \<or> map_of m ''security_scheme_in'' = Some v"
      by (auto simp: field_input_in split: option.splits)
    then have "v = JNull \<or> (\<exists>s. v = JStr s)"
      using s(3)[of v] s(4)[of v] by blast
    then show "v = JNull \<or> (\<exists>y. str_validator v = Inr y)" by auto
  qed
  have 5: "\<exists>x. optional_field str_validator ''scheme'' (field_input ?cfg m ''scheme'' ''scheme'') = Inr x"
    by (rule str_field_accepts) (rule s)
  have 6: "\<exists>x. optional_field str_validator ''bearerFormat''
       (field_input ?cfg m ''bearerFormat'' ''bearerFormat'') = Inr x"
    by (rule str_field_accepts) (rule s)
  have 7: "\<exists>x. optional_field fv ''flows'' (field_input ?cfg m ''flows'' ''flows'') = Inr x"
  proof (rule optional_field_accepts)
    fix k v
    assume "field_input ?cfg m ''flows'' ''flows'' = Some (k, v)"
    then have "map_of m ''flows'' = Some v" by auto
    with fl show "v = JNull \<or> (\<exists>y. fv v = Inr y)" by blast
  qed
  have 8: "\<exists>x. optional_field (AnyUrl_or_str_validate any_url) ''openIdConnectUrl''
       (field_input ?cfg m ''openIdConnectUrl'' ''openIdConnectUrl'') = Inr x"
  proof (rule optional_field_accepts)
    fix k v
    assume "field_input ?cfg m ''openIdConnectUrl'' ''openIdConnectUrl'' = Some (k, v)"
    then have "map_of m ''openIdConnectUrl'' = Some v" by auto
    then have "v = JNull \<or> (\<exists>s. v = JStr s)" by (rule s)
    then show "v = JNull \<or> (\<exists>y. AnyUrl_or_str_validate any_url v = Inr y)"
      using any_string_accepted[of any_url] by blast
  qed
  from 1 have t1: "\<exists>x. required_field str_validator ''type'' (field_input ?cfg m ''type'' ''type'') = Inr x" ..
  obtain r where r: "validate_fields ?cfg any_url fv m = Inr r"
    using validate_fields_Inr_ex[OF t1 2 3 4 5 6 7 8] ..
  then have "required_field str_validator ''type'' (field_input ?cfg m ''type'' ''type'') = Inr (type r)"
    by (simp only: validate_fields_Inr_iff)
  with 1 have "type r = t" by simp
  moreover have "extra_errors ?cfg m = []"
    unfolding extra_errors_Nil_iff using ex wire_keys_used[of m ?cfg]
    by (cases "extra dc") simp_all
  ultimately show ?thesis
    using r by (simp add: validate_model_Inr_iff)
qed

theorem no_conditional_requirements_witness:
  "map_of [(''type'', JStr ''apiKey''), (''scheme'', JStr ''bearer'')] ''type'' = Some (JStr ''apiKey'') \<and>
   (\<exists>r. validate_model \<lparr>extra = forbid, allow_population_by_field_name = False\<rparr> example_any_url
          OAuthFlows_validate [(''type'', JStr ''apiKey''), (''scheme'', JStr ''bearer'')] = Inr r \<and>
        type r = ''apiKey'')"
  using no_conditional_requirements [of "[(''type'', JStr ''apiKey''), (''scheme'', JStr ''bearer'')]"
      "''apiKey''" OAuthFlows_validate "\<lparr>extra = forbid, allow_population_by_field_name = False\<rparr>"
      example_any_url]
  by (simp add: fields_def)

end
